theory Spec2Isabelle
  imports Complex_Main
begin

section \<open>Errors and results\<close>

text \<open>
  Every exception the Python code or the layers it calls can raise is a value.
  \<open>RuntimeError\<close> carries the reason PyTorch gives; \<open>ValueError\<close> carries its message.
\<close>

datatype torch_failure =
    NegativeDimension
  | ChannelMismatch
  | KernelTooLarge
  | OutputTooSmall
  | NonPositiveStride
  | SizeMismatch

datatype error =
    IndexError
  | ValueError string
  | RuntimeError torch_failure
  | SystemExit nat

type_synonym 'a result = "error + 'a"

definition and_then :: "'a result \<Rightarrow> ('a \<Rightarrow> 'b result) \<Rightarrow> 'b result" where
  "and_then r f = (case r of Inl e \<Rightarrow> Inl e | Inr v \<Rightarrow> f v)"


section \<open>Tensors as shapes\<close>

text \<open>
  A tensor is seen through its shape \<open>[N, C, H, W]\<close>. A tensor with no element is not
  an image batch; \<open>nonempty\<close> says that every extent is positive.
\<close>

record shape =
  batch :: nat
  channels :: nat
  height :: nat
  width :: nat

definition nonempty :: "shape \<Rightarrow> bool" where
  "nonempty x \<longleftrightarrow> 0 < batch x \<and> 0 < channels x \<and> 0 < height x \<and> 0 < width x"


section \<open>The layers of torch.nn used by the network\<close>

text \<open>
  Each layer is the value its constructor builds: \<open>Conv2d in out kernel stride padding\<close>,
  \<open>ConvTranspose2d in out kernel stride padding\<close>, \<open>BatchNorm2d features\<close>,
  \<open>LeakyReLU slope\<close>, \<open>Dropout2d p\<close>.
\<close>

datatype layer =
    Conv2d nat nat nat nat nat
  | ConvTranspose2d nat nat nat nat nat
  | BatchNorm2d nat
  | LeakyReLU real
  | ReLU
  | Dropout2d real
  | Identity
  | Tanh

text \<open>
  The constructors allocate their weights with the given channel counts, which fails on a
  negative count; \<open>Dropout2d\<close> rejects a probability outside \<open>[0, 1]\<close>.
\<close>

definition Conv2d_init :: "int \<Rightarrow> int \<Rightarrow> nat \<Rightarrow> nat \<Rightarrow> nat \<Rightarrow> layer result" where
  "Conv2d_init cin cout k s p =
     (if cin < 0 \<or> cout < 0 then Inl (RuntimeError NegativeDimension)
      else Inr (Conv2d (nat cin) (nat cout) k s p))"

definition ConvTranspose2d_init :: "int \<Rightarrow> int \<Rightarrow> nat \<Rightarrow> nat \<Rightarrow> nat \<Rightarrow> layer result" where
  "ConvTranspose2d_init cin cout k s p =
     (if cin < 0 \<or> cout < 0 then Inl (RuntimeError NegativeDimension)
      else Inr (ConvTranspose2d (nat cin) (nat cout) k s p))"

definition BatchNorm2d_init :: "int \<Rightarrow> layer result" where
  "BatchNorm2d_init c =
     (if c < 0 then Inl (RuntimeError NegativeDimension) else Inr (BatchNorm2d (nat c)))"

definition Dropout2d_init :: "real \<Rightarrow> layer result" where
  "Dropout2d_init p =
     (if p < 0 \<or> 1 < p
      then Inl (ValueError ''dropout probability has to be between 0 and 1'')
      else Inr (Dropout2d p))"

text \<open>
  Output extent of a convolution, \<open>floor ((n + 2p - k) / s) + 1\<close>, and of a transposed
  convolution, \<open>(n - 1) s - 2p + k\<close> (dilation 1, no output padding). The second is
  computed over the integers, since \<open>n - 1\<close> and the whole sum can be negative.
\<close>

definition conv_extent :: "nat \<Rightarrow> nat \<Rightarrow> nat \<Rightarrow> nat \<Rightarrow> nat" where
  "conv_extent n k s p = (n + 2 * p - k) div s + 1"

definition conv_transpose_extent :: "nat \<Rightarrow> nat \<Rightarrow> nat \<Rightarrow> nat \<Rightarrow> int" where
  "conv_transpose_extent n k s p = (int n - 1) * int s - 2 * int p + int k"

text \<open>
  What a layer does to a shape. \<open>training\<close> is the module's mode flag: in training mode
  \<open>BatchNorm2d\<close> refuses an input with a single value per channel
  (\<open>N * H * W = 1\<close>), as there is no batch statistic to compute.
\<close>

fun layer_forward :: "bool \<Rightarrow> layer \<Rightarrow> shape \<Rightarrow> shape result" where
  "layer_forward training (Conv2d cin cout k s p) x =
     (if channels x \<noteq> cin then Inl (RuntimeError ChannelMismatch)
      else if s = 0 then Inl (RuntimeError NonPositiveStride)
      else if height x + 2 * p < k \<or> width x + 2 * p < k then Inl (RuntimeError KernelTooLarge)
      else Inr (x\<lparr>channels := cout,
                  height := conv_extent (height x) k s p,
                  width := conv_extent (width x) k s p\<rparr>))"
| "layer_forward training (ConvTranspose2d cin cout k s p) x =
     (if channels x \<noteq> cin then Inl (RuntimeError ChannelMismatch)
      else if conv_transpose_extent (height x) k s p \<le> 0
            \<or> conv_transpose_extent (width x) k s p \<le> 0 then Inl (RuntimeError OutputTooSmall)
      else Inr (x\<lparr>channels := cout,
                  height := nat (conv_transpose_extent (height x) k s p),
                  width := nat (conv_transpose_extent (width x) k s p)\<rparr>))"
| "layer_forward training (BatchNorm2d c) x =
     (if training \<and> batch x * height x * width x = 1
      then Inl (ValueError ''Expected more than 1 value per channel when training'')
      else if channels x \<noteq> c then Inl (RuntimeError ChannelMismatch)
      else Inr x)"
| "layer_forward training (LeakyReLU a) x = Inr x"
| "layer_forward training ReLU x = Inr x"
| "layer_forward training (Dropout2d p) x = Inr x"
| "layer_forward training Identity x = Inr x"
| "layer_forward training Tanh x = Inr x"

text \<open>\<open>nn.Sequential\<close>: the layers in order, stopping at the first failure.\<close>

fun Sequential_forward :: "bool \<Rightarrow> layer list \<Rightarrow> shape \<Rightarrow> shape result" where
  "Sequential_forward training [] x = Inr x"
| "Sequential_forward training (l # ls) x =
     and_then (layer_forward training l x) (Sequential_forward training ls)"

text \<open>
  Elementwise \<open>+\<close> broadcasts: two extents agree when they are equal or one of them is 1.
  \<open>torch.cat\<close> along the channel axis adds the channel counts and needs the other three
  extents equal.
\<close>

definition broadcast_extent :: "nat \<Rightarrow> nat \<Rightarrow> nat option" where
  "broadcast_extent a b =
     (if a = b then Some a else if a = 1 then Some b else if b = 1 then Some a else None)"

definition tensor_add :: "shape \<Rightarrow> shape \<Rightarrow> shape result" where
  "tensor_add x y =
     (case (broadcast_extent (batch x) (batch y), broadcast_extent (channels x) (channels y),
            broadcast_extent (height x) (height y), broadcast_extent (width x) (width y)) of
        (Some n, Some c, Some h, Some w) \<Rightarrow>
          Inr \<lparr>batch = n, channels = c, height = h, width = w\<rparr>
      | _ \<Rightarrow> Inl (RuntimeError SizeMismatch))"

definition cat_channels :: "shape \<Rightarrow> shape \<Rightarrow> shape result" where
  "cat_channels x y =
     (if batch x = batch y \<and> height x = height y \<and> width x = width y
      then Inr (x\<lparr>channels := channels x + channels y\<rparr>)
      else Inl (RuntimeError SizeMismatch))"


section \<open>EncoderBlock and DecoderBlock\<close>

text \<open>
  A stage of the network is a plain layer or one of the two residual blocks; a block holds
  the \<open>conv_block\<close> sequence and the \<open>conv_skip\<close> layer its constructor built.
\<close>

datatype stage =
    Layer layer
  | EncoderBlock (conv_block: "layer list") (conv_skip: layer)
  | DecoderBlock (conv_block: "layer list") (conv_skip: layer)

definition EncoderBlock_init :: "int \<Rightarrow> int \<Rightarrow> bool \<Rightarrow> stage result" where
  "EncoderBlock_init in_channels out_channels norm_flag =
     and_then (Conv2d_init in_channels out_channels 4 2 1) (\<lambda>c1.
     and_then (BatchNorm2d_init out_channels) (\<lambda>b1.
     and_then (Conv2d_init out_channels out_channels 3 1 1) (\<lambda>c2.
     and_then (if norm_flag then BatchNorm2d_init out_channels else Inr Identity) (\<lambda>b2.
     and_then (Conv2d_init in_channels out_channels 1 2 0) (\<lambda>skip.
     Inr (EncoderBlock [LeakyReLU (2/10), c1, b1, LeakyReLU (2/10), c2, b2] skip))))))"

definition DecoderBlock_init :: "int \<Rightarrow> int \<Rightarrow> real \<Rightarrow> stage result" where
  "DecoderBlock_init in_channels out_channels dropout =
     and_then (ConvTranspose2d_init in_channels out_channels 4 2 1) (\<lambda>c1.
     and_then (BatchNorm2d_init out_channels) (\<lambda>b1.
     and_then (Conv2d_init out_channels out_channels 3 1 1) (\<lambda>c2.
     and_then (BatchNorm2d_init out_channels) (\<lambda>b2.
     and_then (if dropout > 0 then Dropout2d_init dropout else Inr Identity) (\<lambda>d.
     and_then (ConvTranspose2d_init in_channels out_channels 2 2 0) (\<lambda>skip.
     Inr (DecoderBlock [ReLU, c1, b1, ReLU, c2, b2, d] skip)))))))"

text \<open>Both blocks compute \<open>self.conv_block(x) + self.conv_skip(x)\<close>, left operand first.\<close>

fun stage_forward :: "bool \<Rightarrow> stage \<Rightarrow> shape \<Rightarrow> shape result" where
  "stage_forward training (Layer l) x = layer_forward training l x"
| "stage_forward training (EncoderBlock blk skip) x =
     and_then (Sequential_forward training blk x) (\<lambda>a.
     and_then (layer_forward training skip x) (\<lambda>b. tensor_add a b))"
| "stage_forward training (DecoderBlock blk skip) x =
     and_then (Sequential_forward training blk x) (\<lambda>a.
     and_then (layer_forward training skip x) (\<lambda>b. tensor_add a b))"


section \<open>ResUnet\<close>

record ResUnet =
  encoders :: "stage list"
  decoders :: "stage list"
  out :: layer

text \<open>Python's \<open>max\<close> of a sequence raises on an empty one.\<close>

definition py_max :: "int list \<Rightarrow> int result" where
  "py_max xs = (case xs of [] \<Rightarrow> Inl (ValueError ''max() arg is an empty sequence'')
                | y # ys \<Rightarrow> Inr (fold max ys y))"

text \<open>
  The first loop of the constructor, over \<open>enumerate(channel_mults[1:], 1)\<close>. The state is
  \<open>in_channels\<close> and the list of encoders built so far; \<open>n\<close> is \<open>len(channel_mults)\<close>.
\<close>

fun encoder_loop ::
  "nat \<Rightarrow> (nat \<times> int) list \<Rightarrow> int \<Rightarrow> stage list \<Rightarrow> (int \<times> stage list) result" where
  "encoder_loop n [] in_channels encs = Inr (in_channels, encs)"
| "encoder_loop n ((level, mult) # rest) in_channels encs =
     (let channels = mult * 64 in
      and_then (EncoderBlock_init in_channels channels (int level \<noteq> int n - 1)) (\<lambda>b.
      encoder_loop n rest channels (encs @ [b])))"

text \<open>
  The second loop, over \<open>reversed(list(enumerate(channel_mults[:-1])))\<close>. The dropout
  condition is evaluated left to right, \<open>max\<close> first; the comparison of \<open>level\<close> with
  \<open>len(channel_mults) - 5\<close> is over the integers.
\<close>

fun decoder_loop ::
  "int list \<Rightarrow> real \<Rightarrow> (nat \<times> int) list \<Rightarrow> int \<Rightarrow> stage list \<Rightarrow> (int \<times> stage list) result" where
  "decoder_loop channel_mults dropout [] in_channels decs = Inr (in_channels, decs)"
| "decoder_loop channel_mults dropout ((level, mult) # rest) in_channels decs =
     (let channels = mult * 64 in
      and_then (py_max channel_mults) (\<lambda>mx.
      and_then (DecoderBlock_init in_channels channels
                 (if mult = mx \<and> int level > int (length channel_mults) - 5
                  then dropout else 0)) (\<lambda>b.
      decoder_loop channel_mults dropout rest (channels * 2) (decs @ [b]))))"

definition enumerate_from :: "nat \<Rightarrow> 'a list \<Rightarrow> (nat \<times> 'a) list" where
  "enumerate_from start xs = zip [start ..< start + length xs] xs"

definition ResUnet_init :: "int \<Rightarrow> int \<Rightarrow> int list \<Rightarrow> real \<Rightarrow> ResUnet result" where
  "ResUnet_init in_channels out_channels channel_mults dropout =
     (case channel_mults of
        [] \<Rightarrow> Inl IndexError
      | m0 # _ \<Rightarrow>
          and_then (Conv2d_init in_channels (m0 * 64) 4 2 1) (\<lambda>first.
          and_then (encoder_loop (length channel_mults)
                      (enumerate_from 1 (drop 1 channel_mults)) (m0 * 64) [Layer first])
            (\<lambda>(in_channels, encs).
          and_then (decoder_loop channel_mults dropout
                      (rev (enumerate_from 0 (butlast channel_mults))) in_channels [])
            (\<lambda>(in_channels, decs).
          and_then (ConvTranspose2d_init in_channels out_channels 4 2 1) (\<lambda>last_stage.
          Inr \<lparr>encoders = encs, decoders = decs @ [Layer last_stage], out = Tanh\<rparr>)))))"

text \<open>
  \<open>ResUnet.forward\<close>, over any carrier of tensors: \<open>app\<close> applies a stage, \<open>cat\<close> is
  \<open>torch.cat\<close> on the channel axis and \<open>cast\<close> is the conversion to float32. The encoder
  loop appends every output to \<open>feats\<close>; \<open>pop\<close> removes and returns the last one and
  raises on an empty list; the decoder loop counts its stages from \<open>index\<close>.
\<close>

fun run_encoders ::
  "(stage \<Rightarrow> 'a \<Rightarrow> 'a result) \<Rightarrow> stage list \<Rightarrow> 'a \<Rightarrow> 'a list \<Rightarrow> ('a \<times> 'a list) result" where
  "run_encoders app [] h feats = Inr (h, feats)"
| "run_encoders app (encoder # rest) h feats =
     and_then (app encoder h) (\<lambda>h'. run_encoders app rest h' (feats @ [h']))"

definition pop :: "'a list \<Rightarrow> ('a \<times> 'a list) result" where
  "pop xs = (if xs = [] then Inl IndexError else Inr (last xs, butlast xs))"

fun run_decoders ::
  "(stage \<Rightarrow> 'a \<Rightarrow> 'a result) \<Rightarrow> ('a \<Rightarrow> 'a \<Rightarrow> 'a result) \<Rightarrow> nat \<Rightarrow> stage list \<Rightarrow> 'a \<Rightarrow> 'a list
     \<Rightarrow> ('a \<times> 'a list) result" where
  "run_decoders app cat index [] h feats = Inr (h, feats)"
| "run_decoders app cat index (decoder # rest) h feats =
     (if index \<noteq> 0
      then and_then (pop feats) (\<lambda>(f, feats').
           and_then (cat h f) (\<lambda>h'.
           and_then (app decoder h') (\<lambda>h''.
           run_decoders app cat (index + 1) rest h'' feats')))
      else and_then (app decoder h) (\<lambda>h''.
           run_decoders app cat (index + 1) rest h'' feats))"

text \<open>
  The body of \<open>forward\<close> up to the end of the decoder loop, returning the local variables
  \<open>h\<close> and \<open>feats\<close> as they are then; \<open>ResUnet_forward\<close> applies \<open>self.out\<close> to \<open>h\<close>.
\<close>

definition ResUnet_body ::
  "(stage \<Rightarrow> 'a \<Rightarrow> 'a result) \<Rightarrow> ('a \<Rightarrow> 'a \<Rightarrow> 'a result) \<Rightarrow> ('a \<Rightarrow> 'a) \<Rightarrow> ResUnet \<Rightarrow> 'a
     \<Rightarrow> ('a \<times> 'a list) result" where
  "ResUnet_body app cat cast net x =
     and_then (run_encoders app (encoders net) (cast x) []) (\<lambda>(h, feats).
     and_then (pop feats) (\<lambda>(bottleneck, feats').
     run_decoders app cat 0 (decoders net) h feats'))"

definition ResUnet_forward ::
  "(stage \<Rightarrow> 'a \<Rightarrow> 'a result) \<Rightarrow> ('a \<Rightarrow> 'a \<Rightarrow> 'a result) \<Rightarrow> ('a \<Rightarrow> 'a) \<Rightarrow> ResUnet \<Rightarrow> 'a \<Rightarrow> 'a result" where
  "ResUnet_forward app cat cast net x =
     and_then (ResUnet_body app cat cast net x) (\<lambda>(h, feats). app (Layer (out net)) h)"

text \<open>The forward pass on shapes: the cast keeps the shape.\<close>

definition forward_shape :: "bool \<Rightarrow> ResUnet \<Rightarrow> shape \<Rightarrow> shape result" where
  "forward_shape training net x =
     ResUnet_forward (stage_forward training) cat_channels (\<lambda>t. t) net x"

text \<open>
  The forward pass on terms: every tensor is the expression that computed it, so the
  result shows which stored feature map each decoder stage was given.
\<close>

datatype expr =
    Input
  | Cast expr
  | Apply stage expr
  | Concat expr expr

definition forward_expr :: "ResUnet \<Rightarrow> (expr \<times> expr list) result" where
  "forward_expr net =
     ResUnet_body (\<lambda>s e. Inr (Apply s e)) (\<lambda>a b. Inr (Concat a b)) Cast net Input"


section \<open>Model selection in main\<close>

record hparams =
  name :: string
  input_dir :: "string option"
  target_dir :: "string option"
  l1_lambda :: int
  epochs :: int
  batch_size :: int
  precision :: string
  model :: string

text \<open>
  The objects \<open>main\<close> constructs, by their constructor arguments, and the calls it makes on
  the outside world in the order it makes them.
\<close>

datatype model_object =
    Pix2Pix int
  | Palette int int int "int list" int "int list" int real
  | TransGAN int

datatype event =
    SeedEverything nat
  | ModelConstructed model_object
  | DataModuleConstructed "string option" "string option" int
  | TrainerConstructed int string string
  | Fit

text \<open>The \<open>match\<close> statement: \<open>model\<close> stays \<open>None\<close> when no case matches.\<close>

definition select_model :: "hparams \<Rightarrow> model_object option" where
  "select_model hp =
     (if model hp = ''pix2pix'' then Some (Pix2Pix (l1_lambda hp))
      else if model hp = ''palette'' then Some (Palette 3 3 64 [1, 2, 4, 8] 2 [8] 1 0)
      else if model hp = ''transgan'' then Some (TransGAN (l1_lambda hp))
      else None)"

text \<open>
  \<open>main\<close> returns the calls made and whether it raised. The constructors of the models, of
  the data module and of the trainer are taken to return; the logger and the callback
  built as arguments of the trainer belong to its construction.
\<close>

definition main :: "hparams \<Rightarrow> event list \<times> unit result" where
  "main hp =
     (let log = [SeedEverything 42] in
      case select_model hp of
        None \<Rightarrow> (log, Inl (ValueError (''Incorrect model name ('' @ model hp @ '')'')))
      | Some m \<Rightarrow>
          (log @ [ModelConstructed m,
                  DataModuleConstructed (input_dir hp) (target_dir hp) (batch_size hp),
                  TrainerConstructed (epochs hp) (name hp) (precision hp),
                  Fit],
           Inr ()))"

text \<open>
  The \<open>--model\<close> argument of the command line: absent, it is the default; present, it has
  to be one of the choices, or the parser exits with status 2.
\<close>

definition model_choices :: "string list" where
  "model_choices = [''pix2pix'', ''palette'', ''transgan'']"

definition parse_model :: "string option \<Rightarrow> string result" where
  "parse_model arg =
     (case arg of
        None \<Rightarrow> Inr ''pix2pix''
      | Some s \<Rightarrow> if s \<in> set model_choices then Inr s else Inl (SystemExit 2))"


section \<open>Closed forms of what the constructors build\<close>

text \<open>
  The block \<open>EncoderBlock.__init__\<close> and \<open>DecoderBlock.__init__\<close> return when their
  layers can be allocated.
\<close>

definition encoder_block :: "nat \<Rightarrow> nat \<Rightarrow> bool \<Rightarrow> stage" where
  "encoder_block cin cout nf =
     EncoderBlock [LeakyReLU (2/10), Conv2d cin cout 4 2 1, BatchNorm2d cout, LeakyReLU (2/10),
                   Conv2d cout cout 3 1 1, if nf then BatchNorm2d cout else Identity]
                  (Conv2d cin cout 1 2 0)"

definition decoder_block :: "nat \<Rightarrow> nat \<Rightarrow> real \<Rightarrow> stage" where
  "decoder_block cin cout d =
     DecoderBlock [ReLU, ConvTranspose2d cin cout 4 2 1, BatchNorm2d cout, ReLU,
                   Conv2d cout cout 3 1 1, BatchNorm2d cout,
                   if d > 0 then Dropout2d d else Identity]
                  (ConvTranspose2d cin cout 2 2 0)"

text \<open>
  The dropout argument the second loop of \<open>ResUnet.__init__\<close> passes at \<open>level\<close> with
  multiplier \<open>m\<close>, the stages the two loops append, and the items the second loop runs
  over with the channel count it leaves for the last transposed convolution.
\<close>

definition stage_dropout :: "int list \<Rightarrow> real \<Rightarrow> nat \<Rightarrow> int \<Rightarrow> real" where
  "stage_dropout ms d level m =
     (if m = Max (set ms) \<and> int level > int (length ms) - 5 then d else 0)"

fun enc_chain :: "nat \<Rightarrow> nat \<Rightarrow> nat \<Rightarrow> int list \<Rightarrow> stage list" where
  "enc_chain n level c [] = []"
| "enc_chain n level c (m # rest) =
     encoder_block c (nat (m * 64)) (int level \<noteq> int n - 1)
       # enc_chain n (Suc level) (nat (m * 64)) rest"

fun dec_chain :: "int list \<Rightarrow> real \<Rightarrow> nat \<Rightarrow> (nat \<times> int) list \<Rightarrow> stage list" where
  "dec_chain ms d c [] = []"
| "dec_chain ms d c ((level, m) # rest) =
     decoder_block c (nat (m * 64))
         (stage_dropout ms d level m)
       # dec_chain ms d (nat (m * 64 * 2)) rest"

definition dec_items :: "int list \<Rightarrow> (nat \<times> int) list" where
  "dec_items ms = rev (enumerate_from 0 (butlast ms))"

definition dec_final :: "int list \<Rightarrow> int" where
  "dec_final ms = last (last ms * 64 # map (\<lambda>(l, m). m * 64 * 2) (dec_items ms))"

text \<open>
  The shapes on the feature stack, innermost first: each level outwards doubles both
  spatial extents.
\<close>

fun tower :: "nat \<Rightarrow> nat \<Rightarrow> nat \<Rightarrow> int list \<Rightarrow> shape list" where
  "tower n a b [] = []"
| "tower n a b (m # rest) =
     \<lparr>batch = n, channels = nat (m * 64), height = a, width = b\<rparr> # tower n (2 * a) (2 * b) rest"


text \<open>
  The skip-connection rule in the words of the specification, over the terms of
  \<open>forward_expr\<close>. \<open>stored net j\<close> is the \<open>j\<close>-th stored feature map: the cast input
  taken through encoder stages \<open>0\<close> to \<open>j\<close>. \<open>decoded net i\<close> is the output of the \<open>i\<close>-th
  decoder stage counted from the bottleneck: stage \<open>0\<close> is applied to the last stored map
  as it is, stage \<open>i > 0\<close> to the concatenation of the previous stage's output with
  stored map number \<open>(encoder stages) - 1 - i\<close>.
\<close>

definition stored :: "ResUnet \<Rightarrow> nat \<Rightarrow> expr" where
  "stored net j = foldl (\<lambda>h s. Apply s h) (Cast Input) (take (Suc j) (encoders net))"

fun decoded :: "ResUnet \<Rightarrow> nat \<Rightarrow> expr" where
  "decoded net 0 = Apply (decoders net ! 0) (stored net (length (encoders net) - 1))"
| "decoded net (Suc i) =
     Apply (decoders net ! Suc i)
       (Concat (decoded net i) (stored net (length (encoders net) - 1 - Suc i)))"


section \<open>The blocks on shapes\<close>

text \<open>
  A block constructor returns exactly when its channel counts are not negative (and the
  dropout rate is at most 1), and then returns the closed form. On shapes, an encoder
  block halves and a decoder block doubles both spatial extents.
\<close>

lemma and_then_Inr [simp]: "and_then (Inr v) f = f v"
  by (simp add: and_then_def)

lemma and_then_Inl [simp]: "and_then (Inl e) f = Inl e"
  by (simp add: and_then_def)

lemma and_then_eq_Inr:
  "and_then r f = Inr y \<longleftrightarrow> (\<exists>v. r = Inr v \<and> f v = Inr y)"
  by (cases r) simp_all

lemma EncoderBlock_init_Inr_iff:
  "EncoderBlock_init cin cout nf = Inr b \<longleftrightarrow>
     0 \<le> cin \<and> 0 \<le> cout \<and> b = encoder_block (nat cin) (nat cout) nf"
  by (auto simp: EncoderBlock_init_def encoder_block_def Conv2d_init_def BatchNorm2d_init_def)

lemma DecoderBlock_init_Inr_iff:
  "DecoderBlock_init cin cout d = Inr b \<longleftrightarrow>
     0 \<le> cin \<and> 0 \<le> cout \<and> d \<le> 1 \<and> b = decoder_block (nat cin) (nat cout) d"
  by (auto simp: DecoderBlock_init_def decoder_block_def Conv2d_init_def BatchNorm2d_init_def
        ConvTranspose2d_init_def Dropout2d_init_def)

lemma conv_extent_down_4: "0 < h \<Longrightarrow> conv_extent (2 * h) 4 2 (Suc 0) = h"
  by (simp add: conv_extent_def)

lemma conv_extent_down_1: "0 < h \<Longrightarrow> conv_extent (2 * h) (Suc 0) 2 0 = h"
  by (simp add: conv_extent_def)

lemma conv_extent_same_3: "0 < h \<Longrightarrow> conv_extent h 3 (Suc 0) (Suc 0) = h"
  by (simp add: conv_extent_def)

lemma conv_transpose_extent_up_4: "conv_transpose_extent h 4 2 (Suc 0) = int (2 * h)"
  by (simp add: conv_transpose_extent_def algebra_simps)

lemma conv_transpose_extent_up_2: "conv_transpose_extent h 2 2 0 = int (2 * h)"
  by (simp add: conv_transpose_extent_def algebra_simps)

lemma tensor_add_same: "tensor_add x x = Inr x"
  by (simp add: tensor_add_def broadcast_extent_def)

lemma encoder_block_forward:
  assumes "0 < h" "0 < w" "\<not> training \<or> n * h * w \<noteq> 1"
  shows "stage_forward training (encoder_block cin cout nf)
           \<lparr>batch = n, channels = cin, height = 2 * h, width = 2 * w\<rparr> =
           Inr \<lparr>batch = n, channels = cout, height = h, width = w\<rparr>"
  using assms
  by (simp add: encoder_block_def conv_extent_down_4 conv_extent_down_1 conv_extent_same_3
      tensor_add_same) blast

lemma decoder_block_forward:
  assumes "0 < h" "0 < w"
  shows "stage_forward training (decoder_block cin cout d)
           \<lparr>batch = n, channels = cin, height = h, width = w\<rparr> =
           Inr \<lparr>batch = n, channels = cout, height = 2 * h, width = 2 * w\<rparr>"
proof -
  have "n * (2 * h) * (2 * w) \<noteq> 1"
    by (metis mult.assoc mult.left_commute even_mult_iff dvd_refl odd_one)
  with assms show ?thesis
    by (simp add: decoder_block_def conv_transpose_extent_up_4 conv_transpose_extent_up_2
      conv_extent_same_3 tensor_add_same del: of_nat_mult)
qed

section \<open>The constructor loops\<close>

text \<open>
  On multipliers that are not negative both loops of \<open>ResUnet.__init__\<close> run to the end
  and append the stages of \<open>enc_chain\<close> and \<open>dec_chain\<close>.
\<close>

lemma enumerate_from_Nil [simp]: "enumerate_from k [] = []"
  by (simp add: enumerate_from_def)

lemma enumerate_from_Cons [simp]:
  "enumerate_from k (x # xs) = (k, x) # enumerate_from (Suc k) xs"
  by (simp add: enumerate_from_def upt_conv_Cons del: upt_Suc)

lemma map_snd_enumerate_from [simp]: "map snd (enumerate_from k xs) = xs"
  by (simp add: enumerate_from_def)

lemma length_enumerate_from [simp]: "length (enumerate_from k xs) = length xs"
  by (simp add: enumerate_from_def)

lemma py_max_eq:
  assumes "ms \<noteq> []"
  shows "py_max ms = Inr (Max (set ms))"
proof (cases ms)
  case Nil
  with assms show ?thesis by simp
next
  case (Cons a list)
  then show ?thesis
    using Max.set_eq_fold [of a list] by (simp add: py_max_def)
qed

lemma pop_snoc [simp]: "pop (xs @ [x]) = Inr (x, xs)"
  by (simp add: pop_def)

lemma encoder_loop_eq:
  "\<forall>m \<in> set rest. 0 \<le> m \<Longrightarrow> 0 \<le> c \<Longrightarrow>
   encoder_loop n (enumerate_from k rest) c encs =
     Inr (last (c # map (\<lambda>m. m * 64) rest), encs @ enc_chain n k (nat c) rest)"
proof (induction rest arbitrary: k c encs)
  case Nil
  then show ?case by simp
next
  case (Cons m rest)
  then show ?case
    by (simp add: EncoderBlock_init_Inr_iff [THEN iffD2] Let_def)
qed

lemma decoder_loop_eq:
  "ms \<noteq> [] \<Longrightarrow> \<forall>m \<in> snd ` set items. 0 \<le> m \<Longrightarrow> 0 \<le> c \<Longrightarrow> d \<le> 1 \<Longrightarrow>
   decoder_loop ms d items c decs =
     Inr (last (c # map (\<lambda>(l, m). m * 64 * 2) items), decs @ dec_chain ms d (nat c) items)"
proof (induction items arbitrary: c decs)
  case Nil
  then show ?case by simp
next
  case (Cons it items)
  obtain l m where it: "it = (l, m)" by (cases it)
  with Cons.prems have m: "0 \<le> m" by simp
  have blk: "DecoderBlock_init c (m * 64) r = Inr (decoder_block (nat c) (nat (m * 64)) r)"
    if "r \<le> 1" for r
    using that m Cons.prems(3) by (simp add: DecoderBlock_init_Inr_iff)
  have rate: "stage_dropout ms d l m \<le> 1"
    using Cons.prems(4) by (simp add: stage_dropout_def)
  have "decoder_loop ms d (it # items) c decs =
          decoder_loop ms d items (m * 64 * 2)
            (decs @ [decoder_block (nat c) (nat (m * 64))
               (stage_dropout ms d l m)])"
    using blk [OF rate]
    by (simp add: it py_max_eq [OF Cons.prems(1)] Let_def stage_dropout_def)
  also have "\<dots> = Inr (last ((m * 64 * 2) # map (\<lambda>(l, m). m * 64 * 2) items),
      (decs @ [decoder_block (nat c) (nat (m * 64))
               (stage_dropout ms d l m)])
       @ dec_chain ms d (nat (m * 64 * 2)) items)"
    using Cons.prems m by (intro Cons.IH) simp_all
  finally show ?case
    by (simp add: it)
qed

section \<open>The encoder pass on shapes\<close>

text \<open>
  Below the innermost level every feature map has an even number of values per channel,
  so only the innermost \<open>BatchNorm2d\<close> can meet a single value.
\<close>

lemma tower_snoc:
  "tower n a b (xs @ [m]) =
     tower n a b xs
       @ [\<lparr>batch = n, channels = nat (m * 64), height = 2 ^ length xs * a,
            width = 2 ^ length xs * b\<rparr>]"
  by (induction xs arbitrary: a b) (simp_all add: mult.assoc)

lemma single_value_power:
  assumes "\<not> training \<or> n * a * b \<noteq> (1::nat)"
  shows "\<not> training \<or> n * (2 ^ l * a) * (2 ^ l * b) \<noteq> 1"
proof (cases l)
  case 0
  with assms show ?thesis by simp
next
  case (Suc l')
  have "even (n * (2 ^ l * a) * (2 ^ l * b))"
    by (simp add: Suc)
  then have "n * (2 ^ l * a) * (2 ^ l * b) \<noteq> 1"
    by (metis odd_one)
  then show ?thesis by simp
qed

lemma run_encoders_chain:
  assumes "0 < a" "0 < b" "\<not> training \<or> n * a * b \<noteq> 1"
  shows "run_encoders (stage_forward training) (enc_chain len k c rest)
           \<lparr>batch = n, channels = c, height = 2 ^ length rest * a, width = 2 ^ length rest * b\<rparr>
           feats =
         Inr (\<lparr>batch = n, channels = nat (last (int c # map (\<lambda>m. m * 64) rest)),
               height = a, width = b\<rparr>,
              feats @ rev (tower n a b (rev rest)))"
proof (induction rest arbitrary: k c feats)
  case Nil
  then show ?case by simp
next
  case (Cons m rest)
  have step: "stage_forward training (encoder_block c (nat (m * 64)) (int k \<noteq> int len - 1))
          \<lparr>batch = n, channels = c, height = 2 * (2 ^ length rest * a),
             width = 2 * (2 ^ length rest * b)\<rparr> =
        Inr \<lparr>batch = n, channels = nat (m * 64), height = 2 ^ length rest * a,
             width = 2 ^ length rest * b\<rparr>"
    using assms single_value_power [OF assms(3), of "length rest"]
    by (intro encoder_block_forward) simp_all
  show ?case
    using step Cons.IH [of "Suc k" "nat (m * 64)"]
    by (simp add: tower_snoc mult.assoc)
qed

section \<open>The decoder pass on shapes\<close>

text \<open>
  After the first decoder stage the current tensor and the top of the feature stack have
  the same shape; a concatenation and a decoder block later this holds again, one level
  further out.
\<close>

lemma pop_single [simp]: "pop [x] = Inr (x, [])"
  by (simp add: pop_def)

lemma conv_transpose_up:
  assumes "0 < h" "0 < w"
  shows "layer_forward training (ConvTranspose2d c oc 4 2 (Suc 0))
           \<lparr>batch = n, channels = c, height = h, width = w\<rparr> =
         Inr \<lparr>batch = n, channels = oc, height = 2 * h, width = 2 * w\<rparr>"
  using assms by (simp add: conv_transpose_extent_up_4 del: of_nat_mult)

lemma conv_down:
  assumes "0 < h" "0 < w"
  shows "layer_forward training (Conv2d c oc 4 2 (Suc 0))
           \<lparr>batch = n, channels = c, height = 2 * h, width = 2 * w\<rparr> =
         Inr \<lparr>batch = n, channels = oc, height = h, width = w\<rparr>"
  using assms by (simp add: conv_extent_down_4)

lemma run_decoders_first:
  assumes "app dec h = Inr h''"
  shows "run_decoders app cat 0 (dec # rest) h fs = run_decoders app cat (Suc 0) rest h'' fs"
  using assms by simp

lemma run_decoders_step:
  assumes "index \<noteq> 0" "cat h f = Inr h'" "app dec h' = Inr h''"
  shows "run_decoders app cat index (dec # rest) h (fs @ [f]) =
         run_decoders app cat (Suc index) rest h'' fs"
  using assms by simp

lemma run_decoders_chain:
  assumes "0 < a" "0 < b" "index \<noteq> 0"
  shows "run_decoders (stage_forward training) cat_channels index
           (dec_chain ms d (ch + ct) items
              @ [Layer (ConvTranspose2d
                   (last ((ch + ct) # map (\<lambda>(l, m). nat (m * 64 * 2)) items)) oc 4 2 (Suc 0))])
           \<lparr>batch = n, channels = ch, height = a, width = b\<rparr>
           (rev (\<lparr>batch = n, channels = ct, height = a, width = b\<rparr>
                  # tower n (2 * a) (2 * b) (map snd items))) =
         Inr (\<lparr>batch = n, channels = oc, height = 2 ^ length items * (2 * a),
               width = 2 ^ length items * (2 * b)\<rparr>, [])"
  using assms
proof (induction items arbitrary: index ch ct a b)
  case Nil
  have cat: "cat_channels \<lparr>batch = n, channels = ch, height = a, width = b\<rparr>
               \<lparr>batch = n, channels = ct, height = a, width = b\<rparr> =
             Inr \<lparr>batch = n, channels = ch + ct, height = a, width = b\<rparr>"
    by (simp add: cat_channels_def)
  have app: "stage_forward training (Layer (ConvTranspose2d (ch + ct) oc 4 2 (Suc 0)))
               \<lparr>batch = n, channels = ch + ct, height = a, width = b\<rparr> =
             Inr \<lparr>batch = n, channels = oc, height = 2 * a, width = 2 * b\<rparr>"
    using Nil by (simp add: conv_transpose_up del: layer_forward.simps)
  show ?case
    using run_decoders_step [where app = "stage_forward training" and cat = cat_channels
        and rest = "[]" and fs = "[]", OF Nil(3) cat app] by simp
next
  case (Cons it items)
  obtain l m where it: "it = (l, m)" by (cases it)
  define r where "r = stage_dropout ms d l m"
  define c' where "c' = nat (m * 64)"
  define rest where "rest = dec_chain ms d (c' + c') items
              @ [Layer (ConvTranspose2d
                   (last ((c' + c') # map (\<lambda>(l, m). nat (m * 64 * 2)) items)) oc 4 2 (Suc 0))]"
  define fs where "fs = rev (\<lparr>batch = n, channels = c', height = 2 * a, width = 2 * b\<rparr>
                  # tower n (2 * (2 * a)) (2 * (2 * b)) (map snd items))"
  have dbl: "nat (m * 64 * 2) = c' + c'"
    by (simp add: c'_def)
  have decs: "dec_chain ms d (ch + ct) (it # items)
              @ [Layer (ConvTranspose2d
                   (last ((ch + ct) # map (\<lambda>(l, m). nat (m * 64 * 2)) (it # items))) oc 4 2 (Suc 0))]
            = decoder_block (ch + ct) c' r # rest"
    unfolding rest_def r_def c'_def it using dbl [unfolded c'_def] by simp
  have feats: "rev (\<lparr>batch = n, channels = ct, height = a, width = b\<rparr>
                  # tower n (2 * a) (2 * b) (map snd (it # items))) =
               fs @ [\<lparr>batch = n, channels = ct, height = a, width = b\<rparr>]"
    unfolding fs_def c'_def it by simp
  have cat: "cat_channels \<lparr>batch = n, channels = ch, height = a, width = b\<rparr>
               \<lparr>batch = n, channels = ct, height = a, width = b\<rparr> =
             Inr \<lparr>batch = n, channels = ch + ct, height = a, width = b\<rparr>"
    by (simp add: cat_channels_def)
  have app: "stage_forward training (decoder_block (ch + ct) c' r)
               \<lparr>batch = n, channels = ch + ct, height = a, width = b\<rparr> =
             Inr \<lparr>batch = n, channels = c', height = 2 * a, width = 2 * b\<rparr>"
    using Cons.prems by (intro decoder_block_forward)
  have ih: "run_decoders (stage_forward training) cat_channels (Suc index) rest
           \<lparr>batch = n, channels = c', height = 2 * a, width = 2 * b\<rparr> fs =
         Inr (\<lparr>batch = n, channels = oc, height = 2 ^ length items * (2 * (2 * a)),
               width = 2 ^ length items * (2 * (2 * b))\<rparr>, [])"
    unfolding rest_def fs_def using Cons.prems by (intro Cons.IH) simp_all
  have "run_decoders (stage_forward training) cat_channels index
          (decoder_block (ch + ct) c' r # rest)
          \<lparr>batch = n, channels = ch, height = a, width = b\<rparr>
          (fs @ [\<lparr>batch = n, channels = ct, height = a, width = b\<rparr>]) =
        Inr (\<lparr>batch = n, channels = oc, height = 2 ^ length items * (2 * (2 * a)),
               width = 2 ^ length items * (2 * (2 * b))\<rparr>, [])"
    using run_decoders_step [where app = "stage_forward training" and cat = cat_channels,
        OF Cons.prems(3) cat app] ih by simp
  then show ?case
    unfolding decs feats by (simp add: mult.assoc)
qed

section \<open>The constructed network and its forward pass on shapes\<close>

lemma snd_dec_items: "map snd (dec_items ms) = rev (butlast ms)"
  by (simp add: dec_items_def rev_map [symmetric])

lemma length_dec_items: "length (dec_items ms) = length ms - 1"
  by (simp add: dec_items_def)

lemma last_nonneg:
  "0 \<le> c \<Longrightarrow> \<forall>m \<in> snd ` set items. (0::int) \<le> m \<Longrightarrow>
   0 \<le> last (c # map (\<lambda>(l, m). m * 64 * 2) items)"
  by (induction items arbitrary: c) (auto split: prod.splits)

lemma nat_last:
  "nat (last (c # map (\<lambda>(l, m). m * 64 * 2) items)) =
   last (nat c # map (\<lambda>(l, m). nat (m * 64 * 2)) items)"
  by (induction items arbitrary: c) (auto split: prod.splits)

lemma dec_items_nonneg:
  assumes "\<forall>m \<in> set ms. 0 \<le> m"
  shows "\<forall>m \<in> snd ` set (dec_items ms). 0 \<le> m"
proof -
  have "snd ` set (dec_items ms) = set (map snd (dec_items ms))"
    by simp
  also have "\<dots> = set (butlast ms)"
    by (simp only: snd_dec_items set_rev)
  finally show ?thesis
    using assms by (auto dest: in_set_butlastD)
qed

lemma ResUnet_init_eq:
  assumes "ms \<noteq> []" "\<forall>m \<in> set ms. 0 \<le> m" "0 \<le> ic" "0 \<le> oc" "d \<le> 1"
  shows "ResUnet_init ic oc ms d =
    Inr \<lparr>encoders = Layer (Conv2d (nat ic) (nat (hd ms * 64)) 4 2 1)
                       # enc_chain (length ms) 1 (nat (hd ms * 64)) (tl ms),
         decoders = dec_chain ms d (nat (last ms * 64)) (dec_items ms)
                       @ [Layer (ConvTranspose2d (nat (dec_final ms)) (nat oc) 4 2 1)],
         out = Tanh\<rparr>"
proof -
  obtain m0 rest where ms: "ms = m0 # rest"
    using assms(1) by (cases ms) auto
  have m0: "0 \<le> m0" and rest: "\<forall>m \<in> set rest. 0 \<le> m"
    using assms(2) by (simp_all add: ms)
  have lastms: "last (m0 * 64 # map (\<lambda>m. m * 64) rest) = last ms * 64"
    by (simp add: ms last_map)
  have lastnn: "0 \<le> last ms * 64"
    using assms(1,2) by simp
  have enc: "encoder_loop (length ms) (enumerate_from 1 (drop 1 ms)) (m0 * 64)
               [Layer (Conv2d (nat ic) (nat (m0 * 64)) 4 2 1)] =
             Inr (last ms * 64, Layer (Conv2d (nat ic) (nat (m0 * 64)) 4 2 1)
                    # enc_chain (length ms) 1 (nat (m0 * 64)) rest)"
    using encoder_loop_eq [OF rest, of "m0 * 64" "length ms" 1] m0 lastms
    by (simp add: ms)
  have dec: "decoder_loop ms d (rev (enumerate_from 0 (butlast ms))) (last ms * 64) [] =
             Inr (dec_final ms, dec_chain ms d (nat (last ms * 64)) (dec_items ms))"
    using decoder_loop_eq [OF assms(1) dec_items_nonneg [OF assms(2)] lastnn assms(5), of "[]"]
    by (simp add: dec_final_def dec_items_def)
  have fin: "0 \<le> dec_final ms"
    unfolding dec_final_def
    by (rule last_nonneg [OF lastnn dec_items_nonneg [OF assms(2)]])
  have first: "Conv2d_init ic (m0 * 64) 4 2 1 = Inr (Conv2d (nat ic) (nat (m0 * 64)) 4 2 1)"
    using assms(3) m0 by (simp add: Conv2d_init_def)
  have lst: "ConvTranspose2d_init (dec_final ms) oc 4 2 1 =
             Inr (ConvTranspose2d (nat (dec_final ms)) (nat oc) 4 2 1)"
    using fin assms(4) by (simp add: ConvTranspose2d_init_def)
  have "ResUnet_init ic oc (m0 # rest) d =
    Inr \<lparr>encoders = Layer (Conv2d (nat ic) (nat (m0 * 64)) 4 2 1)
                       # enc_chain (length ms) 1 (nat (m0 * 64)) rest,
         decoders = dec_chain ms d (nat (last ms * 64)) (dec_items ms)
                       @ [Layer (ConvTranspose2d (nat (dec_final ms)) (nat oc) 4 2 1)],
         out = Tanh\<rparr>"
    unfolding ResUnet_init_def list.case first and_then_Inr
    using enc dec lst by (simp add: ms [symmetric])
  then show ?thesis
    by (simp add: ms)
qed

lemma run_encoders_chain_opt:
  assumes "0 < a" "0 < b" "rest = [] \<or> \<not> training \<or> n * a * b \<noteq> 1"
  shows "run_encoders (stage_forward training) (enc_chain len k c rest)
           \<lparr>batch = n, channels = c, height = 2 ^ length rest * a, width = 2 ^ length rest * b\<rparr>
           feats =
         Inr (\<lparr>batch = n, channels = nat (last (int c # map (\<lambda>m. m * 64) rest)),
               height = a, width = b\<rparr>,
              feats @ rev (tower n a b (rev rest)))"
proof (cases "rest = []")
  case True
  then show ?thesis by simp
next
  case False
  with assms(3) have "\<not> training \<or> n * a * b \<noteq> 1" by simp
  from run_encoders_chain [OF assms(1,2) this] show ?thesis .
qed

lemma body_shape_built:
  assumes "ms \<noteq> []" "\<forall>m \<in> set ms. 0 \<le> m" "0 < a" "0 < b"
    and "length ms = 1 \<or> \<not> training \<or> n * a * b \<noteq> 1"
  shows "ResUnet_body (stage_forward training) cat_channels (\<lambda>t. t)
           \<lparr>encoders = Layer (Conv2d ic (nat (hd ms * 64)) 4 2 (Suc 0))
                       # enc_chain (length ms) k (nat (hd ms * 64)) (tl ms),
            decoders = dec_chain ms d (nat (last ms * 64)) (dec_items ms)
                       @ [Layer (ConvTranspose2d (nat (dec_final ms)) oc 4 2 (Suc 0))],
            out = Tanh\<rparr>
           \<lparr>batch = n, channels = ic, height = 2 ^ length ms * a, width = 2 ^ length ms * b\<rparr> =
         Inr (\<lparr>batch = n, channels = oc, height = 2 ^ length ms * a,
               width = 2 ^ length ms * b\<rparr>, [])"
proof -
  obtain m0 rest where ms: "ms = m0 # rest"
    using assms(1) by (cases ms) auto
  have m0: "0 \<le> m0"
    using assms(2) by (simp add: ms)
  define c0 where "c0 = nat (m0 * 64)"
  define hB where "hB = \<lparr>batch = n, channels = nat (last ms * 64), height = a, width = b\<rparr>"
  define f0 where "f0 = \<lparr>batch = n, channels = c0, height = 2 ^ length rest * a,
                         width = 2 ^ length rest * b\<rparr>"
  define FS where "FS = rev (tower n (2 * a) (2 * b) (map snd (dec_items ms)))"
  have first: "stage_forward training (Layer (Conv2d ic c0 4 2 (Suc 0)))
          \<lparr>batch = n, channels = ic, height = 2 ^ length ms * a, width = 2 ^ length ms * b\<rparr> =
        Inr f0"
    using conv_down [of "2 ^ length rest * a" "2 ^ length rest * b" training ic c0 n] assms(3,4)
    by (simp add: ms f0_def mult.assoc del: layer_forward.simps)
  have "rest = [] \<or> \<not> training \<or> n * a * b \<noteq> 1"
    using assms(5) by (auto simp: ms)
  from run_encoders_chain_opt [OF assms(3,4) this, of "length ms" k c0 "[f0]"]
  have chain: "run_encoders (stage_forward training) (enc_chain (length ms) k c0 rest) f0 [f0] =
         Inr (hB, [f0] @ rev (tower n a b (rev rest)))"
    using m0 by (simp add: f0_def hB_def c0_def ms last_map)
  have "[f0] @ rev (tower n a b (rev rest)) = rev (tower n a b (rev ms))"
    by (simp add: ms tower_snoc f0_def c0_def)
  also have "rev ms = last ms # rev (butlast ms)"
    using assms(1) by (metis append_butlast_last_id rev.simps(2) rev_append rev_rev_ident
        append_Cons append_Nil)
  also have "rev (tower n a b (last ms # rev (butlast ms))) = FS @ [hB]"
    by (simp add: FS_def hB_def snd_dec_items)
  finally have feats: "[f0] @ rev (tower n a b (rev rest)) = FS @ [hB]" .
  have enc: "run_encoders (stage_forward training)
          (Layer (Conv2d ic c0 4 2 (Suc 0)) # enc_chain (length ms) k c0 rest)
          \<lparr>batch = n, channels = ic, height = 2 ^ length ms * a, width = 2 ^ length ms * b\<rparr> [] =
        Inr (hB, FS @ [hB])"
    using first chain feats by (simp del: stage_forward.simps)
  have dec: "run_decoders (stage_forward training) cat_channels 0
           (dec_chain ms d (nat (last ms * 64)) (dec_items ms)
              @ [Layer (ConvTranspose2d (nat (dec_final ms)) oc 4 2 (Suc 0))]) hB FS =
         Inr (\<lparr>batch = n, channels = oc, height = 2 ^ length ms * a,
               width = 2 ^ length ms * b\<rparr>, [])"
  proof (cases "dec_items ms")
    case Nil
    have len: "length ms = 1"
      using length_dec_items [of ms] Nil assms(1) by (cases ms) auto
    have app: "stage_forward training (Layer (ConvTranspose2d (nat (last ms * 64)) oc 4 2 (Suc 0)))
                 hB = Inr \<lparr>batch = n, channels = oc, height = 2 * a, width = 2 * b\<rparr>"
      using assms(3,4) by (simp add: hB_def conv_transpose_up del: layer_forward.simps)
    show ?thesis
      using run_decoders_first [where app = "stage_forward training" and cat = cat_channels
          and rest = "[]" and fs = "[]", OF app]
      by (simp add: Nil dec_final_def FS_def len)
  next
    case (Cons it its)
    obtain l m where it: "it = (l, m)" by (cases it)
    define c' where "c' = nat (m * 64)"
    define r where "r = stage_dropout ms d l m"
    have len: "length ms = Suc (Suc (length its))"
      using length_dec_items [of ms] Cons assms(1) by (cases ms) auto
    have fin: "nat (dec_final ms) = last ((c' + c') # map (\<lambda>(l, m). nat (m * 64 * 2)) its)"
    proof -
      have "dec_final ms = last (m * 64 * 2 # map (\<lambda>(l, m). m * 64 * 2) its)"
        by (simp add: dec_final_def Cons it)
      then have "nat (dec_final ms) =
                 last (nat (m * 64 * 2) # map (\<lambda>(l, m). nat (m * 64 * 2)) its)"
        by (simp only: nat_last)
      moreover have "nat (m * 64 * 2) = c' + c'"
        by (simp add: c'_def)
      ultimately show ?thesis
        by (simp only:)
    qed
    have decs: "dec_chain ms d (nat (last ms * 64)) (dec_items ms)
              @ [Layer (ConvTranspose2d (nat (dec_final ms)) oc 4 2 (Suc 0))] =
           decoder_block (nat (last ms * 64)) c' r
             # (dec_chain ms d (c' + c') its
                 @ [Layer (ConvTranspose2d
                     (last ((c' + c') # map (\<lambda>(l, m). nat (m * 64 * 2)) its)) oc 4 2 (Suc 0))])"
    proof -
      have "nat (128 * m) = nat (m * 64) + nat (m * 64)"
        by simp
      then show ?thesis
        unfolding fin by (simp add: Cons it c'_def r_def)
    qed
    have fs: "FS = rev (\<lparr>batch = n, channels = c', height = 2 * a, width = 2 * b\<rparr>
                  # tower n (2 * (2 * a)) (2 * (2 * b)) (map snd its))"
      by (simp add: FS_def Cons it c'_def)
    have app: "stage_forward training (decoder_block (nat (last ms * 64)) c' r) hB =
               Inr \<lparr>batch = n, channels = c', height = 2 * a, width = 2 * b\<rparr>"
      unfolding hB_def using assms(3,4) by (intro decoder_block_forward)
    have rest: "run_decoders (stage_forward training) cat_channels (Suc 0)
           (dec_chain ms d (c' + c') its
              @ [Layer (ConvTranspose2d
                   (last ((c' + c') # map (\<lambda>(l, m). nat (m * 64 * 2)) its)) oc 4 2 (Suc 0))])
           \<lparr>batch = n, channels = c', height = 2 * a, width = 2 * b\<rparr>
           (rev (\<lparr>batch = n, channels = c', height = 2 * a, width = 2 * b\<rparr>
                  # tower n (2 * (2 * a)) (2 * (2 * b)) (map snd its))) =
         Inr (\<lparr>batch = n, channels = oc, height = 2 ^ length its * (2 * (2 * a)),
               width = 2 ^ length its * (2 * (2 * b))\<rparr>, [])"
      using assms(3,4) by (intro run_decoders_chain) simp_all
    show ?thesis
      unfolding decs fs
      using run_decoders_first [where app = "stage_forward training" and cat = cat_channels,
          OF app] rest
      by (simp add: len mult.assoc)
  qed
  show ?thesis
    unfolding ResUnet_body_def
    using enc dec by (simp add: ms c0_def)
qed

section \<open>What a returned network must be\<close>

text \<open>
  Conversely, whenever the constructor returns, the network is the closed form, and the
  arguments of every block it built were acceptable.
\<close>

lemma encoder_loop_Inr:
  "encoder_loop n (enumerate_from k rest) c encs = Inr (c', encs') \<Longrightarrow>
   c' = last (c # map (\<lambda>m. m * 64) rest) \<and> encs' = encs @ enc_chain n k (nat c) rest"
proof (induction rest arbitrary: k c encs)
  case Nil
  then show ?case by simp
next
  case (Cons m rest)
  from Cons.prems obtain b where
    b: "EncoderBlock_init c (m * 64) (int k \<noteq> int n - 1) = Inr b" and
    loop: "encoder_loop n (enumerate_from (Suc k) rest) (m * 64) (encs @ [b]) = Inr (c', encs')"
    by (auto simp: and_then_eq_Inr Let_def)
  from b have "b = encoder_block (nat c) (nat (m * 64)) (int k \<noteq> int n - 1)"
    by (simp add: EncoderBlock_init_Inr_iff)
  with Cons.IH [OF loop] show ?case
    by simp
qed

lemma py_max_Inr: "py_max ms = Inr mx \<Longrightarrow> mx = Max (set ms)"
  using py_max_eq [of ms] by (cases ms) (simp_all add: py_max_def)

lemma decoder_loop_Inr:
  "decoder_loop ms d items c decs = Inr (c', decs') \<Longrightarrow>
   c' = last (c # map (\<lambda>(l, m). m * 64 * 2) items)
   \<and> decs' = decs @ dec_chain ms d (nat c) items
   \<and> (items \<noteq> [] \<longrightarrow> 0 \<le> c)
   \<and> (\<forall>(l, m) \<in> set items. 0 \<le> m \<and> stage_dropout ms d l m \<le> 1)"
proof (induction items arbitrary: c decs)
  case Nil
  then show ?case by simp
next
  case (Cons it items)
  obtain l m where it: "it = (l, m)" by (cases it)
  from Cons.prems obtain mx b where
    mx: "py_max ms = Inr mx" and
    b: "DecoderBlock_init c (m * 64)
          (if m = mx \<and> int l > int (length ms) - 5 then d else 0) = Inr b" and
    loop: "decoder_loop ms d items (m * 64 * 2) (decs @ [b]) = Inr (c', decs')"
    by (auto simp: it and_then_eq_Inr Let_def)
  from b py_max_Inr [OF mx] have
    b': "DecoderBlock_init c (m * 64) (stage_dropout ms d l m) = Inr b"
    by (simp add: stage_dropout_def)
  then have facts: "0 \<le> c" "0 \<le> m" "stage_dropout ms d l m \<le> 1"
    and beq: "b = decoder_block (nat c) (nat (m * 64)) (stage_dropout ms d l m)"
    by (simp_all add: DecoderBlock_init_Inr_iff)
  from Cons.IH [OF loop] facts beq show ?case
    by (simp add: it stage_dropout_def)
qed

lemma ResUnet_init_Inr:
  assumes "ResUnet_init ic oc ms d = Inr net"
  shows "ms \<noteq> [] \<and> 0 \<le> ic \<and> 0 \<le> oc
    \<and> net = \<lparr>encoders = Layer (Conv2d (nat ic) (nat (hd ms * 64)) 4 2 1)
                       # enc_chain (length ms) 1 (nat (hd ms * 64)) (tl ms),
         decoders = dec_chain ms d (nat (last ms * 64)) (dec_items ms)
                       @ [Layer (ConvTranspose2d (nat (dec_final ms)) (nat oc) 4 2 1)],
         out = Tanh\<rparr>
    \<and> (dec_items ms \<noteq> [] \<longrightarrow> 0 \<le> last ms)
    \<and> (\<forall>(l, m) \<in> set (dec_items ms). 0 \<le> m \<and> stage_dropout ms d l m \<le> 1)"
proof -
  from assms obtain m0 rest where ms: "ms = m0 # rest"
    by (cases ms) (simp_all add: ResUnet_init_def)
  from assms obtain first c1 encs c2 decs last_stage where
    first: "Conv2d_init ic (m0 * 64) 4 2 1 = Inr first" and
    enc: "encoder_loop (length ms) (enumerate_from 1 rest) (m0 * 64) [Layer first]
            = Inr (c1, encs)" and
    dec: "decoder_loop ms d (dec_items ms) c1 [] = Inr (c2, decs)" and
    lst: "ConvTranspose2d_init c2 oc 4 2 1 = Inr last_stage" and
    net: "net = \<lparr>encoders = encs, decoders = decs @ [Layer last_stage], out = Tanh\<rparr>"
    unfolding ResUnet_init_def ms list.case
    by (auto simp: and_then_eq_Inr dec_items_def ms)
  from first have f: "0 \<le> ic" "first = Conv2d (nat ic) (nat (m0 * 64)) 4 2 1"
    by (auto simp: Conv2d_init_def split: if_splits)
  from encoder_loop_Inr [OF enc] have
    c1: "c1 = last ms * 64" and
    encs: "encs = Layer first # enc_chain (length ms) 1 (nat (m0 * 64)) rest"
    by (simp_all add: ms last_map)
  from decoder_loop_Inr [OF dec] have
    c2: "c2 = dec_final ms" and
    decs: "decs = dec_chain ms d (nat (last ms * 64)) (dec_items ms)" and
    nn: "dec_items ms \<noteq> [] \<longrightarrow> 0 \<le> last ms" and
    ok: "\<forall>(l, m) \<in> set (dec_items ms). 0 \<le> m \<and> stage_dropout ms d l m \<le> 1"
    by (simp_all add: c1 dec_final_def)
  from lst have l: "0 \<le> oc" "last_stage = ConvTranspose2d (nat c2) (nat oc) 4 2 1"
    by (auto simp: ConvTranspose2d_init_def split: if_splits)
  show ?thesis
    using f l nn ok by (simp add: net encs decs c2 ms)
qed


section \<open>EncoderBlock and DecoderBlock: the claims\<close>

lemma shape_eq_halves:
  assumes "even (height x)" "even (width x)"
  shows "x = \<lparr>batch = batch x, channels = channels x, height = 2 * (height x div 2),
              width = 2 * (width x div 2)\<rparr>"
  using assms by (cases x) simp







section \<open>ResUnet: the shape of the output\<close>

lemma small_init:
  "ResUnet_init 3 3 [1, 1] (1/2) =
     Inr \<lparr>encoders = [Layer (Conv2d 3 64 4 2 1), encoder_block 64 64 False],
          decoders = [decoder_block 64 64 (1/2), Layer (ConvTranspose2d 128 3 4 2 1)],
          out = Tanh\<rparr>"
  by (simp add: ResUnet_init_def Conv2d_init_def ConvTranspose2d_init_def
      EncoderBlock_init_Inr_iff [THEN iffD2] DecoderBlock_init_Inr_iff [THEN iffD2]
      py_max_def Let_def)

lemma default_init:
  "ResUnet_init 3 3 [1, 2, 4, 8, 8, 8, 8, 8] (1/2) =
     Inr \<lparr>encoders = [Layer (Conv2d 3 64 4 2 1), encoder_block 64 128 True,
            encoder_block 128 256 True, encoder_block 256 512 True, encoder_block 512 512 True,
            encoder_block 512 512 True, encoder_block 512 512 True, encoder_block 512 512 False],
          decoders = [decoder_block 512 512 (1/2), decoder_block 1024 512 (1/2),
            decoder_block 1024 512 (1/2), decoder_block 1024 512 0, decoder_block 1024 256 0,
            decoder_block 512 128 0, decoder_block 256 64 0, Layer (ConvTranspose2d 128 3 4 2 1)],
          out = Tanh\<rparr>"
  by (simp add: ResUnet_init_def Conv2d_init_def ConvTranspose2d_init_def
      EncoderBlock_init_Inr_iff [THEN iffD2] DecoderBlock_init_Inr_iff [THEN iffD2]
      py_max_def Let_def)




section \<open>ResUnet: channel multipliers of length below two\<close>

lemma single_init_Inr:
  assumes "ResUnet_init ic oc [m] d = Inr net"
  shows "net = \<lparr>encoders = [Layer (Conv2d (nat ic) (nat (m * 64)) 4 2 (Suc 0))],
               decoders = [Layer (ConvTranspose2d (nat (m * 64)) (nat oc) 4 2 (Suc 0))],
               out = Tanh\<rparr>"
  using ResUnet_init_Inr [OF assms] by (simp add: dec_items_def dec_final_def)




section \<open>ResUnet: where dropout is placed\<close>

lemma length_enc_chain [simp]: "length (enc_chain n k c rest) = length rest"
  by (induction rest arbitrary: k c) simp_all

lemma length_dec_chain [simp]: "length (dec_chain ms d c items) = length items"
  by (induction items arbitrary: c) auto

lemma dec_chain_nth:
  "i < length items \<Longrightarrow>
   dec_chain ms d c items ! i =
     decoder_block (if i = 0 then c else nat (snd (items ! (i - 1)) * 64 * 2))
       (nat (snd (items ! i) * 64))
       (stage_dropout ms d (fst (items ! i)) (snd (items ! i)))"
proof (induction items arbitrary: i c)
  case Nil
  then show ?case by simp
next
  case (Cons it items)
  obtain l m where it: "it = (l, m)" by (cases it)
  show ?case
  proof (cases i)
    case 0
    then show ?thesis by (simp add: it)
  next
    case (Suc j)
    with Cons.prems have "j < length items" by simp
    from Cons.IH [OF this, of "nat (m * 64 * 2)"] show ?thesis
      by (cases j) (simp_all add: Suc it)
  qed
qed

lemma dec_items_nth:
  assumes "i < length ms - 1"
  shows "dec_items ms ! i = (length ms - 2 - i, ms ! (length ms - 2 - i))"
proof -
  have len: "length (enumerate_from 0 (butlast ms)) = length ms - 1"
    by simp
  have j: "length ms - 1 - Suc i < length ms - 1"
    using assms by simp
  have "dec_items ms ! i = enumerate_from 0 (butlast ms) ! (length ms - 1 - Suc i)"
    unfolding dec_items_def using assms by (simp add: rev_nth)
  also have "\<dots> = (length ms - 1 - Suc i, butlast ms ! (length ms - 1 - Suc i))"
    using j by (simp add: enumerate_from_def)
  also have "butlast ms ! (length ms - 1 - Suc i) = ms ! (length ms - 1 - Suc i)"
    using j by (simp add: nth_butlast)
  finally show ?thesis
    by (simp add: numeral_2_eq_2)
qed

text \<open>
  C2, as the code has it. In a constructed network the \<open>i\<close>-th decoder block counted
  from the bottleneck, which is the one of level \<open>len(channel_mults) - 2 - i\<close>, is the
  block \<open>DecoderBlock\<close> builds when it is given the constructor's dropout rate if its
  multiplier is the maximum and \<open>i < 3\<close>, and the rate 0 otherwise. The test \<open>i < 3\<close>
  is the source's \<open>level > len(channel_mults) - 5\<close>: it selects the three decoder
  blocks closest to the bottleneck, as the comment in the source says.
\<close>

theorem decoder_dropout_policy:
  assumes "ResUnet_init in_channels out_channels channel_mults dropout = Inr net"
    and "i < length channel_mults - 1"
  shows "DecoderBlock_init
           (if i = 0 then last channel_mults * 64
            else channel_mults ! (length channel_mults - 1 - i) * 64 * 2)
           (channel_mults ! (length channel_mults - 2 - i) * 64)
           (if channel_mults ! (length channel_mults - 2 - i) = Max (set channel_mults) \<and> i < 3
            then dropout else 0) = Inr (decoders net ! i)
       \<and> (i < 3 \<longleftrightarrow> int (length channel_mults - 2 - i) > int (length channel_mults) - 5)"
proof -
  let ?ms = channel_mults
  let ?level = "length ?ms - 2 - i"
  from ResUnet_init_Inr [OF assms(1)] have
    dec: "decoders net = dec_chain ?ms dropout (nat (last ?ms * 64)) (dec_items ?ms)
                       @ [Layer (ConvTranspose2d (nat (dec_final ?ms)) (nat out_channels) 4 2 1)]"
    and lastnn: "dec_items ?ms \<noteq> [] \<longrightarrow> 0 \<le> last ?ms"
    and ok: "\<forall>(l, m) \<in> set (dec_items ?ms). 0 \<le> m \<and> stage_dropout ?ms dropout l m \<le> 1"
    by simp_all
  have len: "i < length (dec_items ?ms)"
    using assms(2) by (simp add: length_dec_items)
  have item: "dec_items ?ms ! i = (?level, ?ms ! ?level)"
    by (rule dec_items_nth [OF assms(2)])
  have cmp: "i < 3 \<longleftrightarrow> int ?level > int (length ?ms) - 5"
    using assms(2) by auto
  have rate: "stage_dropout ?ms dropout ?level (?ms ! ?level) =
              (if ?ms ! ?level = Max (set ?ms) \<and> i < 3 then dropout else 0)"
    by (simp add: stage_dropout_def cmp)
  have "(?level, ?ms ! ?level) \<in> set (dec_items ?ms)"
    using len item by (metis nth_mem)
  with ok have out_nn: "0 \<le> ?ms ! ?level" and rate_ok: "stage_dropout ?ms dropout ?level (?ms ! ?level) \<le> 1"
    by auto
  have prev: "snd (dec_items ?ms ! (i - 1)) = ?ms ! (length ?ms - 1 - i)" if "i \<noteq> 0"
  proof -
    have "i - 1 < length ?ms - 1" using assms(2) by simp
    from dec_items_nth [OF this] that assms(2) show ?thesis
      by (simp add: numeral_2_eq_2)
  qed
  have prev_nn: "0 \<le> ?ms ! (length ?ms - 1 - i)" if "i \<noteq> 0"
  proof -
    have "i - 1 < length (dec_items ?ms)" using len by simp
    then have "dec_items ?ms ! (i - 1) \<in> set (dec_items ?ms)" by (rule nth_mem)
    with ok have "0 \<le> snd (dec_items ?ms ! (i - 1))"
      by (cases "dec_items ?ms ! (i - 1)") auto
    with prev [OF that] show ?thesis
      by simp
  qed
  define cin where "cin = (if i = 0 then last ?ms * 64 else ?ms ! (length ?ms - 1 - i) * 64 * 2)"
  have cin_nn: "0 \<le> cin"
    using lastnn len prev_nn by (auto simp: cin_def)
  have "decoders net ! i = dec_chain ?ms dropout (nat (last ?ms * 64)) (dec_items ?ms) ! i"
    using len by (simp add: dec nth_append)
  also have "\<dots> = decoder_block (nat cin) (nat (?ms ! ?level * 64))
                      (stage_dropout ?ms dropout ?level (?ms ! ?level))"
    using prev by (simp add: dec_chain_nth [OF len] item cin_def)
  finally have blk: "decoders net ! i = decoder_block (nat cin) (nat (?ms ! ?level * 64))
                      (stage_dropout ?ms dropout ?level (?ms ! ?level))" .
  have "DecoderBlock_init cin (?ms ! ?level * 64)
          (stage_dropout ?ms dropout ?level (?ms ! ?level)) = Inr (decoders net ! i)"
    using cin_nn out_nn rate_ok by (simp add: DecoderBlock_init_Inr_iff blk)
  then have "DecoderBlock_init
           (if i = 0 then last ?ms * 64 else ?ms ! (length ?ms - 1 - i) * 64 * 2)
           (?ms ! ?level * 64)
           (if ?ms ! ?level = Max (set ?ms) \<and> i < 3 then dropout else 0) =
         Inr (decoders net ! i)"
    unfolding rate cin_def .
  then show ?thesis
    using cmp by (rule conjI)
qed

theorem decoder_dropout_policy_witness:
  "(case ResUnet_init 3 3 [1, 2, 4, 8, 8, 8, 8, 8] (1/2) of
      Inl e \<Rightarrow> False
    | Inr net \<Rightarrow>
        DecoderBlock_init 1024 512 (1/2) = Inr (decoders net ! 2)
        \<and> DecoderBlock_init 256 64 0 = Inr (decoders net ! 6))"
  using decoder_dropout_policy [OF default_init, of 2]
    decoder_dropout_policy [OF default_init, of 6]
  by (simp add: default_init)

text \<open>
  The fourth decoder block from the bottleneck of the default network works at the
  maximum multiplier and is built with dropout 0: its sequence ends in \<open>Identity\<close>.
\<close>

theorem decoder_dropout_fourth_stage_counterexample:
  "[1, 2, 4, 8, 8, 8, 8, 8] ! (length [1, 2, 4, 8, 8, 8, 8, 8 :: int] - 2 - 3)
     = Max (set [1, 2, 4, 8, 8, 8, 8, 8 :: int])
   \<and> (3 :: nat) < 4
   \<and> (case ResUnet_init 3 3 [1, 2, 4, 8, 8, 8, 8, 8] (1/2) of
         Inl e \<Rightarrow> False
       | Inr net \<Rightarrow>
           DecoderBlock_init 1024 512 0 = Inr (decoders net ! 3)
           \<and> last (conv_block (decoders net ! 3)) = Identity)"
  by (simp add: default_init DecoderBlock_init_Inr_iff decoder_block_def)

section \<open>ResUnet: which feature map each decoder stage is given\<close>

lemma run_encoders_expr:
  "run_encoders (\<lambda>s e. Inr (Apply s e)) encs h feats =
     Inr (foldl (\<lambda>h s. Apply s h) h encs,
          feats @ map (\<lambda>j. foldl (\<lambda>h s. Apply s h) h (take (Suc j) encs)) [0..<length encs])"
proof (induction encs arbitrary: h feats)
  case Nil
  then show ?case by simp
next
  case (Cons e es)
  show ?case
    by (simp add: Cons.IH map_upt_Suc del: upt_Suc)
qed

lemma run_decoders_expr:
  assumes "length (decoders net) = n" "0 < i" "i \<le> n" "length (encoders net) = n"
  shows "run_decoders (\<lambda>s e. Inr (Apply s e)) (\<lambda>a b. Inr (Concat a b)) i
           (drop i (decoders net)) (decoded net (i - 1))
           (map (stored net) [0..<n - i]) =
         Inr (decoded net (n - 1), [])"
  using assms
proof (induction "n - i" arbitrary: i)
  case 0
  then show ?case by simp
next
  case (Suc k)
  then have lt: "i < n" by simp
  obtain i' where i': "i = Suc i'"
    using Suc.prems(2) by (cases i) auto
  have drop: "drop i (decoders net) = decoders net ! i # drop (Suc i) (decoders net)"
    using lt Suc.prems(1) by (simp add: Cons_nth_drop_Suc)
  have feats: "map (stored net) [0..<n - i] =
               map (stored net) [0..<n - Suc i] @ [stored net (n - Suc i)]"
    using lt by (metis Suc_diff_Suc map_append list.map(1,2) upt_Suc_append zero_le)
  have ih: "run_decoders (\<lambda>s e. Inr (Apply s e)) (\<lambda>a b. Inr (Concat a b)) (Suc i)
           (drop (Suc i) (decoders net)) (decoded net (Suc i - 1))
           (map (stored net) [0..<n - Suc i]) =
         Inr (decoded net (n - 1), [])"
    using Suc.hyps(2) Suc.prems lt by (intro Suc.hyps(1)) simp_all
  show ?case
    unfolding drop feats
    using ih Suc.prems(4) by (simp add: i')
qed

lemma forward_expr_eq:
  assumes "length (decoders net) = n" "length (encoders net) = n" "0 < n"
  shows "run_encoders (\<lambda>s e. Inr (Apply s e)) (encoders net) (Cast Input) [] =
           Inr (stored net (n - 1), map (stored net) [0..<n])"
    and "forward_expr net = Inr (decoded net (n - 1), [])"
proof -
  have enc: "run_encoders (\<lambda>s e. Inr (Apply s e)) (encoders net) (Cast Input) [] =
           Inr (stored net (n - 1), map (stored net) [0..<n])"
    using assms(2,3) by (simp add: run_encoders_expr stored_def)
  then show "run_encoders (\<lambda>s e. Inr (Apply s e)) (encoders net) (Cast Input) [] =
           Inr (stored net (n - 1), map (stored net) [0..<n])" .
  have feats: "map (stored net) [0..<n] = map (stored net) [0..<n - 1] @ [stored net (n - 1)]"
    using assms(3) by (metis Suc_pred' map_append list.map(1,2) upt_Suc_append zero_le)
  have decs: "decoders net = decoders net ! 0 # drop (Suc 0) (decoders net)"
    using assms(1,3) by (metis Cons_nth_drop_Suc drop0)
  have first: "run_decoders (\<lambda>s e. Inr (Apply s e)) (\<lambda>a b. Inr (Concat a b)) 0
           (decoders net) (stored net (n - 1)) (map (stored net) [0..<n - 1]) =
         run_decoders (\<lambda>s e. Inr (Apply s e)) (\<lambda>a b. Inr (Concat a b)) (Suc 0)
           (drop (Suc 0) (decoders net)) (decoded net 0) (map (stored net) [0..<n - 1])"
    by (subst decs) (simp add: assms(2))
  have rest: "run_decoders (\<lambda>s e. Inr (Apply s e)) (\<lambda>a b. Inr (Concat a b)) (Suc 0)
           (drop (Suc 0) (decoders net)) (decoded net (Suc 0 - 1))
           (map (stored net) [0..<n - Suc 0]) =
         Inr (decoded net (n - 1), [])"
    using assms by (intro run_decoders_expr) simp_all
  show "forward_expr net = Inr (decoded net (n - 1), [])"
    unfolding forward_expr_def ResUnet_body_def enc feats
    using first rest by simp
qed

lemma built_lengths:
  assumes "ResUnet_init ic oc ms d = Inr net"
  shows "length (encoders net) = length ms" "length (decoders net) = length ms" "0 < length ms"
proof -
  from ResUnet_init_Inr [OF assms] have ne: "ms \<noteq> []"
    and enc: "encoders net = Layer (Conv2d (nat ic) (nat (hd ms * 64)) 4 2 1)
                       # enc_chain (length ms) 1 (nat (hd ms * 64)) (tl ms)"
    and dec: "decoders net = dec_chain ms d (nat (last ms * 64)) (dec_items ms)
                       @ [Layer (ConvTranspose2d (nat (dec_final ms)) (nat oc) 4 2 1)]"
    by simp_all
  from ne show "0 < length ms" by simp
  from ne show "length (encoders net) = length ms"
    by (simp add: enc)
  from ne show "length (decoders net) = length ms"
    by (simp add: dec length_dec_items)
qed

text \<open>
  C5. In a constructed network there are as many decoder stages as encoder stages. The
  encoder loop stores one feature map per encoder stage; the last of them, the
  bottleneck, is popped before decoding and goes to the first decoder stage alone; every
  later decoder stage \<open>i\<close> is given the previous output concatenated with stored map
  \<open>(encoder stages) - 1 - i\<close>; and the stack is empty when the decoder loop ends, so the
  bottleneck is the only stored map that is in no concatenation.
\<close>

theorem skip_connection_indexing:
  assumes "ResUnet_init in_channels out_channels channel_mults dropout = Inr net"
  shows "length (decoders net) = length (encoders net)
       \<and> run_encoders (\<lambda>s e. Inr (Apply s e)) (encoders net) (Cast Input) [] =
           Inr (stored net (length (encoders net) - 1),
                map (stored net) [0..<length (encoders net)])
       \<and> forward_expr net = Inr (decoded net (length (decoders net) - 1), [])"
  using built_lengths [OF assms] forward_expr_eq [of net "length channel_mults"]
  by simp

theorem skip_connection_indexing_witness:
  "(case ResUnet_init 3 3 [1, 1] (1/2) of
      Inl e \<Rightarrow> False
    | Inr net \<Rightarrow>
        length (decoders net) = 2 \<and> length (encoders net) = 2
        \<and> forward_expr net =
            Inr (Apply (decoders net ! 1)
                   (Concat
                      (Apply (decoders net ! 0)
                         (Apply (encoders net ! 1) (Apply (encoders net ! 0) (Cast Input))))
                      (Apply (encoders net ! 0) (Cast Input))), []))"
  using skip_connection_indexing [OF small_init]
  by (simp add: small_init stored_def)


section \<open>Model selection: the claims\<close>

lemma select_model_None_iff:
  "select_model hp = None \<longleftrightarrow> model hp \<notin> set model_choices"
  by (simp add: select_model_def model_choices_def)

text \<open>
  C8. A model name that is none of \<open>pix2pix\<close>, \<open>palette\<close>, \<open>transgan\<close> makes \<open>main\<close> raise
  \<open>ValueError\<close> with the message naming it, and the only call made before is the seeding:
  no model, data module or trainer has been constructed.
\<close>

theorem main_rejects_unknown_model:
  assumes "model hp \<notin> {''pix2pix'', ''palette'', ''transgan''}"
  shows "main hp =
           ([SeedEverything 42], Inl (ValueError (''Incorrect model name ('' @ model hp @ '')'')))"
proof -
  from assms have "select_model hp = None"
    by (simp add: select_model_def)
  then show ?thesis
    by (simp add: main_def)
qed

theorem main_rejects_unknown_model_witness:
  "main \<lparr>name = ''run'', input_dir = None, target_dir = None, l1_lambda = 50, epochs = 200,
         batch_size = 2, precision = ''32'', model = ''foo''\<rparr> =
     ([SeedEverything 42], Inl (ValueError ''Incorrect model name (foo)''))"
  using main_rejects_unknown_model
    [of "\<lparr>name = ''run'', input_dir = None, target_dir = None, l1_lambda = 50, epochs = 200,
          batch_size = 2, precision = ''32'', model = ''foo''\<rparr>"]
  by simp

text \<open>
  C10. When the model field is one of the three names, the \<open>match\<close> binds a model and
  \<open>main\<close> does not raise; and every name the parser lets through for \<open>--model\<close>, the
  default included, is one of the three, so \<open>main\<close> called on parsed arguments never
  reaches the \<open>ValueError\<close>.
\<close>

theorem valid_model_never_raises:
  shows "(model hp \<in> {''pix2pix'', ''palette'', ''transgan''} \<longrightarrow>
            select_model hp \<noteq> None \<and> snd (main hp) = Inr ())
       \<and> (parse_model arg = Inr m \<longrightarrow>
            m \<in> {''pix2pix'', ''palette'', ''transgan''}
            \<and> select_model (hp\<lparr>model := m\<rparr>) \<noteq> None
            \<and> snd (main (hp\<lparr>model := m\<rparr>)) = Inr ())"
proof -
  have sel: "select_model h \<noteq> None \<and> snd (main h) = Inr ()"
    if "model h \<in> {''pix2pix'', ''palette'', ''transgan''}" for h
  proof -
    from that obtain mo where "select_model h = Some mo"
      by (auto simp: select_model_def)
    then show ?thesis
      by (simp add: main_def)
  qed
  have parsed: "m \<in> {''pix2pix'', ''palette'', ''transgan''}" if "parse_model arg = Inr m"
    using that by (auto simp: parse_model_def model_choices_def split: option.splits if_splits)
  show ?thesis
    using sel [of hp] sel [of "hp\<lparr>model := m\<rparr>"] parsed by simp
qed

theorem valid_model_never_raises_witness:
  "parse_model (Some ''palette'') = Inr ''palette''
   \<and> select_model \<lparr>name = ''run'', input_dir = None, target_dir = None, l1_lambda = 50,
        epochs = 200, batch_size = 2, precision = ''32'', model = ''palette''\<rparr>
       = Some (Palette 3 3 64 [1, 2, 4, 8] 2 [8] 1 0)
   \<and> snd (main \<lparr>name = ''run'', input_dir = None, target_dir = None, l1_lambda = 50,
        epochs = 200, batch_size = 2, precision = ''32'', model = ''palette''\<rparr>) = Inr ()"
proof -
  have p: "parse_model (Some ''palette'') = Inr ''palette''"
    by (simp add: parse_model_def model_choices_def)
  have s: "select_model \<lparr>name = ''run'', input_dir = None, target_dir = None, l1_lambda = 50,
        epochs = 200, batch_size = 2, precision = ''32'', model = ''palette''\<rparr>
       = Some (Palette 3 3 64 [1, 2, 4, 8] 2 [8] 1 0)"
    by (simp add: select_model_def)
  show ?thesis
    using p s valid_model_never_raises
      [of "\<lparr>name = ''run'', input_dir = None, target_dir = None, l1_lambda = 50,
        epochs = 200, batch_size = 2, precision = ''32'', model = ''palette''\<rparr>"
        "Some ''palette''" "''palette''"]
    by simp
qed

end
